theory Spec2Isabelle
  imports Complex_Main
begin

section \<open>Python values and strings\<close>

text \<open>
  Python strings are modelled as \<open>string\<close>. \<open>str.lower\<close> is modelled on its ASCII
  fragment (\<open>A\<close>..\<open>Z\<close> to \<open>a\<close>..\<open>z\<close>, every other character unchanged), and
  \<open>str.strip\<close> on the ASCII whitespace characters.
\<close>

definition lower_char :: "char \<Rightarrow> char" where
  "lower_char c =
     (case map_of (zip ''ABCDEFGHIJKLMNOPQRSTUVWXYZ'' ''abcdefghijklmnopqrstuvwxyz'') c of
        Some d \<Rightarrow> d
      | None \<Rightarrow> c)"

definition lower :: "string \<Rightarrow> string" where
  "lower s = map lower_char s"

definition is_space :: "char \<Rightarrow> bool" where
  "is_space c = (c \<in> set [CHR 0x09, CHR 0x0A, CHR 0x0B, CHR 0x0C, CHR 0x0D,
                           CHR 0x1C, CHR 0x1D, CHR 0x1E, CHR 0x1F, CHR 0x20])"

definition strip :: "string \<Rightarrow> string" where
  "strip s = rev (dropWhile is_space (rev (dropWhile is_space s)))"

text \<open>
  The values a parsed JSON document holds: \<open>None\<close>, \<open>bool\<close>, \<open>int\<close>, \<open>float\<close>,
  \<open>str\<close>, \<open>list\<close> and \<open>dict\<close>.
\<close>

datatype jvalue =
    JNull
  | JBool bool
  | JInt int
  | JFloat real
  | JStr string
  | JList "jvalue list"
  | JDict "(string \<times> jvalue) list"

datatype py_error =
    IndexError
  | FileNotFoundError string
  | ValueError string
  | PdfError
  | InvalidTagName string

section \<open>The PDF object model\<close>

text \<open>
  A field or widget dictionary, with the keys the code reads or writes: \<open>/T\<close>, \<open>/FT\<close>,
  \<open>/Ff\<close>, \<open>/Subtype\<close>, \<open>/AP\<close>, \<open>/V\<close>, \<open>/AS\<close> and \<open>/Kids\<close>. Names are spelled
  with their leading slash, as \<open>str\<close> of a pikepdf name is. \<open>/AP\<close> is \<open>None\<close> when the
  key is absent (or the dictionary is empty), \<open>Some None\<close> when it has no \<open>/N\<close> (or an
  empty one), and \<open>Some (Some ks)\<close> when \<open>/N\<close> is a dictionary with the keys \<open>ks\<close>, in
  iteration order. \<open>/Ff\<close> is a number or something \<open>int()\<close> rejects.
\<close>

datatype pdfnum = Num int | NotNum

datatype pdfval = PStr string | PName string

datatype pdfobj =
  Obj (T: "string option") (FT: "string option") (Ff: "pdfnum option")
      (Subtype: "string option") (AP: "string list option option")
      (V: "pdfval option") (AS: "pdfval option") (Kids: "pdfobj list")

fun set_V :: "pdfval \<Rightarrow> pdfobj \<Rightarrow> pdfobj" where
  "set_V x (Obj t ft ff st ap v as kids) = Obj t ft ff st ap (Some x) as kids"

fun set_AS :: "pdfval \<Rightarrow> pdfobj \<Rightarrow> pdfobj" where
  "set_AS x (Obj t ft ff st ap v as kids) = Obj t ft ff st ap v (Some x) kids"

definition to_str :: "string option \<Rightarrow> string" where
  "to_str obj = (case obj of Some s \<Rightarrow> s | None \<Rightarrow> [])"

definition name_of :: "pdfobj \<Rightarrow> string" where
  "name_of fld = to_str (T fld)"

definition is_widget :: "pdfobj \<Rightarrow> bool" where
  "is_widget obj = (to_str (Subtype obj) = ''/Widget'')"

definition get_field_flags :: "pdfobj \<Rightarrow> int" where
  "get_field_flags fld =
     (case Ff fld of
        None \<Rightarrow> 0
      | Some (Num n) \<Rightarrow> n
      | Some NotNum \<Rightarrow> 0)"

definition is_read_only :: "int \<Rightarrow> bool" where
  "is_read_only ff = (and ff (push_bit 0 1) \<noteq> 0)"

definition is_push_button :: "int \<Rightarrow> bool" where
  "is_push_button ff = (and ff (push_bit 16 1) \<noteq> 0)"

definition is_radio :: "int \<Rightarrow> bool" where
  "is_radio ff = (and ff (push_bit 15 1) \<noteq> 0)"

section \<open>Appearance names\<close>

definition get_appearance_names :: "pdfobj \<Rightarrow> string list \<times> string" where
  "get_appearance_names widget =
     (case AP widget of
        None \<Rightarrow> ([''/Yes''], ''/Off'')
      | Some None \<Rightarrow> ([''/Yes''], ''/Off'')
      | Some (Some []) \<Rightarrow> ([''/Yes''], ''/Off'')
      | Some (Some names) \<Rightarrow>
          (let off_name = (if ''/Off'' \<in> set names then ''/Off'' else ''/Off'');
               on_names = filter (\<lambda>n. n \<noteq> off_name) names
           in (if on_names = [] then [''/Yes''] else on_names, off_name)))"

section \<open>The checkbox and radio applier\<close>

text \<open>\<open>candidates[0]\<close>: raises \<open>IndexError\<close> on an empty list.\<close>

definition first_candidate :: "string list \<Rightarrow> py_error + string option" where
  "first_candidate candidates =
     (case candidates of [] \<Rightarrow> Inl IndexError | c # _ \<Rightarrow> Inr (Some c))"

definition normalize_on_value :: "jvalue \<Rightarrow> string list \<Rightarrow> py_error + string option" where
  "normalize_on_value val candidates =
     (case val of
        JBool b \<Rightarrow> (if b then first_candidate candidates else Inr None)
      | JInt n \<Rightarrow> (if n \<noteq> 0 then first_candidate candidates else Inr None)
      | JFloat r \<Rightarrow> (if r \<noteq> 0 then first_candidate candidates else Inr None)
      | JStr s \<Rightarrow>
          (let v = strip s in
           if v = [] then Inr None
           else
             (let v' = (if hd v \<noteq> CHR ''/'' then CHR ''/'' # v else v) in
              (case find (\<lambda>c. lower v' = lower c) candidates of
                 Some c \<Rightarrow> Inr (Some c)
               | None \<Rightarrow>
                   (if lower v' \<in> set [''/yes'', ''/on'', ''/true'', ''/1'']
                    then first_candidate candidates
                    else first_candidate candidates))))
      | _ \<Rightarrow> Inr None)"

text \<open>
  The first loop of \<open>set_checkbox_or_radio\<close>: the on-names of all widgets, without
  duplicates and in order of first appearance, and the off-name of the last widget.
\<close>

definition add_on_names :: "string list \<Rightarrow> string list \<Rightarrow> string list" where
  "add_on_names all_on_names on_names =
     foldl (\<lambda>acc n. if n \<in> set acc then acc else acc @ [n]) all_on_names on_names"

definition collect_step :: "string list \<times> string \<Rightarrow> pdfobj \<Rightarrow> string list \<times> string" where
  "collect_step st w =
     (let (on_names, off) = get_appearance_names w
      in (add_on_names (fst st) on_names, if off \<noteq> [] then off else snd st))"

definition collect_names :: "pdfobj list \<Rightarrow> string list \<times> string" where
  "collect_names widgets = foldl collect_step ([], ''/Off'') widgets"

definition selected_on :: "pdfobj list \<Rightarrow> jvalue \<Rightarrow> py_error + string option" where
  "selected_on widgets val =
     (let all_on_names = fst (collect_names widgets)
      in if all_on_names \<noteq> [] then normalize_on_value val all_on_names else Inr None)"

definition radio_widget :: "string \<Rightarrow> pdfobj \<Rightarrow> pdfobj" where
  "radio_widget sel w =
     (let (on_names, off) = get_appearance_names w
      in if sel \<in> set on_names then set_AS (PName sel) w else set_AS (PName off) w)"

definition checkbox_widget :: "pdfobj \<Rightarrow> pdfobj" where
  "checkbox_widget w =
     (let (on_names, off) = get_appearance_names w;
          on = (case on_names of [] \<Rightarrow> ''/Yes'' | n # _ \<Rightarrow> n)
      in set_AS (PName on) w)"

text \<open>
  The field and its widgets are passed in and returned updated: \<open>/V\<close> of the field and
  \<open>/AS\<close> of each widget are the only keys written. A selected name is used only when it
  is truthy, that is, present and not the empty string.
\<close>

definition set_checkbox_or_radio ::
  "pdfobj \<Rightarrow> pdfobj list \<Rightarrow> jvalue \<Rightarrow> py_error + (pdfobj \<times> pdfobj list)" where
  "set_checkbox_or_radio fld widgets val =
     (let ff = get_field_flags fld in
      if is_push_button ff then Inr (fld, widgets)
      else
        (let off_name = snd (collect_names widgets) in
         (case selected_on widgets val of
            Inl e \<Rightarrow> Inl e
          | Inr sel \<Rightarrow>
              (if is_radio ff then
                 (case sel of
                    Some s \<Rightarrow>
                      (if s \<noteq> [] then Inr (set_V (PName s) fld, map (radio_widget s) widgets)
                       else Inr (set_V (PName off_name) fld, map (set_AS (PName off_name)) widgets))
                  | None \<Rightarrow>
                      Inr (set_V (PName off_name) fld, map (set_AS (PName off_name)) widgets))
               else
                 (case sel of
                    Some s \<Rightarrow>
                      (if s \<noteq> [] then Inr (set_V (PName s) fld, map checkbox_widget widgets)
                       else Inr (set_V (PName off_name) fld, map (set_AS (PName off_name)) widgets))
                  | None \<Rightarrow>
                      Inr (set_V (PName off_name) fld, map (set_AS (PName off_name)) widgets))))))"

section \<open>Flattening the field tree\<close>

record entry =
  name :: string
  field :: pdfobj
  widgets :: "pdfobj list"

text \<open>The full name of a node: parent and own name joined by a dot, unless one is empty.\<close>

definition join_name :: "string \<Rightarrow> string \<Rightarrow> string" where
  "join_name parent_name current_name =
     (if parent_name \<noteq> [] \<and> current_name \<noteq> [] then parent_name @ ''.'' @ current_name
      else if current_name \<noteq> [] then current_name else parent_name)"

fun walk_fields :: "pdfobj \<Rightarrow> string \<Rightarrow> entry list" where
  "walk_fields (Obj t ft ff st ap v as kids) parent_name =
     (let full_name = join_name parent_name (to_str t);
          widgets = filter is_widget kids;
          child_fields = filter (\<lambda>kid. \<not> is_widget kid) kids;
          entries = concat (map (\<lambda>child. walk_fields child full_name) child_fields)
      in entries @
         (if ft \<noteq> None
          then [\<lparr>name = full_name, field = Obj t ft ff st ap v as kids, widgets = widgets\<rparr>]
          else []))"

definition flatten_all_fields :: "pdfobj list \<Rightarrow> entry list" where
  "flatten_all_fields flds = concat (map (\<lambda>fld. walk_fields fld []) flds)"

text \<open>
  The field nodes of a tree, children before their parent and children in \<open>/Kids\<close> order:
  the node itself and, recursively, the kids that are not widgets. This is the traversal
  the flattening is compared with.
\<close>

fun field_nodes :: "pdfobj \<Rightarrow> pdfobj list" where
  "field_nodes (Obj t ft ff st ap v as kids) =
     concat (map field_nodes (filter (\<lambda>kid. \<not> is_widget kid) kids)) @
     [Obj t ft ff st ap v as kids]"

section \<open>The list of fillable fields\<close>

fun join :: "string \<Rightarrow> string list \<Rightarrow> string" where
  "join sep [] = []"
| "join sep [x] = x"
| "join sep (x # y # ys) = x @ sep @ join sep (y # ys)"

fun fillable_lines :: "entry list \<Rightarrow> string list" where
  "fillable_lines [] = []"
| "fillable_lines (f # fs) =
     (let full_name = name f;
          field_obj = field f;
          ft = to_str (FT field_obj);
          ff = get_field_flags field_obj
      in if full_name = [] then fillable_lines fs
         else if is_read_only ff then fillable_lines fs
         else if ft = ''/Btn'' \<and> is_push_button ff then fillable_lines fs
         else if ft = ''/Sig'' then fillable_lines fs
         else full_name # fillable_lines fs)"

text \<open>The text \<open>write_fillable_list\<close> writes to the file.\<close>

definition write_fillable_list :: "entry list \<Rightarrow> string" where
  "write_fillable_list flds =
     (let lines = fillable_lines flds
      in if lines \<noteq> [] then join [CHR 0x0A] lines @ [CHR 0x0A] else [])"

section \<open>Resolving a key to a field\<close>

text \<open>
  A Python \<open>dict\<close> is a list of pairs in insertion order with distinct keys:
  \<open>d[k] = v\<close> replaces the value of an existing key in place and appends a new key;
  \<open>d.setdefault(k, []).append(v)\<close> extends the list of an existing key and appends a new
  key with the list \<open>[v]\<close>.
\<close>

fun dict_set :: "'k \<Rightarrow> 'v \<Rightarrow> ('k \<times> 'v) list \<Rightarrow> ('k \<times> 'v) list" where
  "dict_set k v [] = [(k, v)]"
| "dict_set k v ((k', v') # d) = (if k' = k then (k, v) # d else (k', v') # dict_set k v d)"

fun dict_append :: "'k \<Rightarrow> 'v \<Rightarrow> ('k \<times> 'v list) list \<Rightarrow> ('k \<times> 'v list) list" where
  "dict_append k v [] = [(k, [v])]"
| "dict_append k v ((k', vs) # d) =
     (if k' = k then (k', vs @ [v]) # d else (k', vs) # dict_append k v d)"

definition by_name :: "entry list \<Rightarrow> (string \<times> entry) list" where
  "by_name flds = foldl (\<lambda>d f. if name f \<noteq> [] then dict_set (name f) f d else d) [] flds"

definition short_names_map :: "entry list \<Rightarrow> (string \<times> entry list) list" where
  "short_names_map flds =
     foldl (\<lambda>d f. let base = name_of (field f) in if base \<noteq> [] then dict_append base f d else d)
       [] flds"

text \<open>
  The body of the loop over the keys in \<open>fill_acroform_with_json\<close>: the entry the value is
  applied to, or \<open>None\<close> when the key is skipped.
\<close>

definition resolve_key :: "entry list \<Rightarrow> string \<Rightarrow> entry option" where
  "resolve_key flds key =
     (case map_of (by_name flds) key of
        Some fentry \<Rightarrow> Some fentry
      | None \<Rightarrow>
          (case (case map_of (short_names_map flds) key of Some l \<Rightarrow> l | None \<Rightarrow> []) of
             [c] \<Rightarrow> Some c
           | _ \<Rightarrow>
               (let lc_key = lower key in
                (case find (\<lambda>(n, f). lower n = lc_key) (by_name flds) of
                   Some (n, match_full) \<Rightarrow> Some match_full
                 | None \<Rightarrow>
                     (case find (\<lambda>(base, flist). lower base = lc_key \<and> length flist = 1)
                             (short_names_map flds) of
                        Some (base, flist) \<Rightarrow> Some (hd flist)
                      | None \<Rightarrow> None)))))"

text \<open>
  The precedence in the specification's words, over the table itself: \<open>bearing b\<close> are the
  entries whose own local name is \<open>b\<close>. Entries with an empty name take no part.
\<close>

definition bearing :: "string \<Rightarrow> entry list \<Rightarrow> entry list" where
  "bearing b flds = filter (\<lambda>f. name_of (field f) = b) flds"

definition resolve_precedence :: "entry list \<Rightarrow> string \<Rightarrow> entry option" where
  "resolve_precedence flds key =
     (if key \<noteq> [] \<and> filter (\<lambda>f. name f = key) flds \<noteq> []
      then Some (last (filter (\<lambda>f. name f = key) flds))
      else if key \<noteq> [] \<and> length (bearing key flds) = 1
      then Some (hd (bearing key flds))
      else
        (case find (\<lambda>f. name f \<noteq> [] \<and> lower (name f) = lower key) flds of
           Some g \<Rightarrow> Some (last (filter (\<lambda>f. name f = name g) flds))
         | None \<Rightarrow>
             find (\<lambda>f. name_of (field f) \<noteq> [] \<and> lower (name_of (field f)) = lower key \<and>
                        length (bearing (name_of (field f)) flds) = 1) flds))"

section \<open>XML trees\<close>

text \<open>
  An element as the XML service presents it: namespace (empty for none), local tag name,
  attributes, text (\<open>el_text\<close>) and child elements. Queries of the form \<open>{*}name\<close> match on the local
  name in any namespace; a bare name matches only an element without a namespace.
\<close>

datatype xml =
  Elem (nspace: string) (tag: string) (attrs: "(string \<times> string) list")
       (el_text: "string option") (children: "xml list")

fun descendants :: "xml \<Rightarrow> xml list" where
  "descendants (Elem n t a x kids) = concat (map (\<lambda>k. k # descendants k) kids)"

definition findall_local :: "string \<Rightarrow> xml \<Rightarrow> xml list" where
  "findall_local nm root' = filter (\<lambda>e. tag e = nm) (descendants root')"

definition find_local :: "string \<Rightarrow> xml \<Rightarrow> xml option" where
  "find_local nm el = find (\<lambda>e. tag e = nm) (descendants el)"

definition get_attr :: "xml \<Rightarrow> string \<Rightarrow> string option" where
  "get_attr el a = map_of (attrs el) a"

section \<open>Bindings of an XFA template\<close>

text \<open>
  The body shared by the two loops of \<open>get_bindings_from_template\<close>: the pair an element
  contributes, or \<open>None\<close> where the loop continues without storing.
\<close>

definition binding_of :: "xml \<Rightarrow> (string \<times> string) option" where
  "binding_of el =
     (case get_attr el ''name'' of
        None \<Rightarrow> None
      | Some nm \<Rightarrow>
          (if nm = [] then None
           else
             (case find_local ''bind'' el of
                None \<Rightarrow> None
              | Some bind \<Rightarrow>
                  (case get_attr bind ''ref'' of
                     None \<Rightarrow> None
                   | Some ref \<Rightarrow> if ref \<noteq> [] then Some (nm, ref) else None))))"

definition bind_step :: "(string \<times> string) list \<Rightarrow> xml \<Rightarrow> (string \<times> string) list" where
  "bind_step out el = (case binding_of el of None \<Rightarrow> out | Some (nm, ref) \<Rightarrow> dict_set nm ref out)"

text \<open>The argument is the parsed template, \<open>None\<close> when parsing gives no tree.\<close>

definition get_bindings_from_template :: "xml option \<Rightarrow> (string \<times> string) list" where
  "get_bindings_from_template parsed =
     (case parsed of
        None \<Rightarrow> []
      | Some root' \<Rightarrow>
          foldl bind_step (foldl bind_step [] (findall_local ''field'' root'))
            (findall_local ''exclGroup'' root'))"

text \<open>The bindings the template declares, in the order the two loops visit them.\<close>

definition declared_bindings :: "xml \<Rightarrow> (string \<times> string) list" where
  "declared_bindings root' =
     List.map_filter binding_of (findall_local ''field'' root' @ findall_local ''exclGroup'' root')"

section \<open>Setting a value by reference in the datasets tree\<close>

text \<open>\<open>re.split(r"[./]", s)\<close>: the pieces between the separators, empty ones included.\<close>

fun split_ref :: "string \<Rightarrow> string list" where
  "split_ref [] = [[]]"
| "split_ref (c # cs) =
     (if c = CHR ''.'' \<or> c = CHR ''/'' then [] # split_ref cs
      else (case split_ref cs of [] \<Rightarrow> [[c]] | p # ps \<Rightarrow> (c # p) # ps))"

definition path_parts :: "string \<Rightarrow> string list" where
  "path_parts ref = filter (\<lambda>p. p \<noteq> []) (split_ref (strip ref))"

text \<open>
  \<open>re.sub(r"\[.*?\]", "", part)\<close>: every group from an opening bracket to the next
  closing bracket is removed, unless a newline comes first.
\<close>

fun has_close :: "string \<Rightarrow> bool" where
  "has_close [] = False"
| "has_close (c # cs) =
     (if c = CHR '']'' then True else if c = CHR 0x0A then False else has_close cs)"

fun strip_index :: "string \<Rightarrow> string" and skip_index :: "string \<Rightarrow> string" where
  "strip_index [] = []"
| "strip_index (c # cs) =
     (if c = CHR ''['' \<and> has_close cs then skip_index cs else c # strip_index cs)"
| "skip_index [] = []"
| "skip_index (c # cs) = (if c = CHR '']'' then strip_index cs else skip_index cs)"

text \<open>
  The XML service checks a tag name when it creates an element, and raises \<open>ValueError\<close>
  on a name it does not accept; the model reports this as \<open>InvalidTagName\<close>. The check is
  a parameter \<open>accepts\<close> of the model. \<open>valid_tag\<close> is the check on ASCII names: a letter
  or underscore, then letters, digits, underscores, hyphens and dots.
\<close>

definition name_start_char :: "char \<Rightarrow> bool" where
  "name_start_char c =
     (let n = (of_char c :: nat)
      in (65 \<le> n \<and> n \<le> 90) \<or> (97 \<le> n \<and> n \<le> 122) \<or> n = 95)"

definition name_char :: "char \<Rightarrow> bool" where
  "name_char c =
     (let n = (of_char c :: nat)
      in name_start_char c \<or> (48 \<le> n \<and> n \<le> 57) \<or> n = 45 \<or> n = 46)"

definition valid_tag :: "string \<Rightarrow> bool" where
  "valid_tag s = (case s of [] \<Rightarrow> False | c # cs \<Rightarrow> name_start_char c \<and> list_all name_char cs)"

text \<open>
  The two lookups of the loop build a path from the segment: \<open>./*[@name="seg"]\<close>, and
  \<open>./seg\<close> when the first finds nothing. A segment without a character that the path
  language reads as syntax is a literal: the first lookup finds the first child with the
  attribute \<open>name\<close> equal to the segment, the second the first child without namespace whose
  tag is the segment. The found child is returned with the children before and after it.
\<close>

definition path_special :: "char \<Rightarrow> bool" where
  "path_special c =
     (c \<in> set ''/[]()@!=*:{}.'' \<or> c = CHR 0x22 \<or> c = CHR 0x27 \<or> is_space c)"

definition path_literal :: "string \<Rightarrow> bool" where
  "path_literal seg = (seg \<noteq> [] \<and> list_all (\<lambda>c. \<not> path_special c) seg)"

definition find_child :: "string \<Rightarrow> xml \<Rightarrow> (xml list \<times> xml \<times> xml list) option" where
  "find_child nm cur =
     (case List.extract (\<lambda>c. get_attr c ''name'' = Some nm) (children cur) of
        Some r \<Rightarrow> Some r
      | None \<Rightarrow> List.extract (\<lambda>c. nspace c = [] \<and> tag c = nm) (children cur))"

text \<open>
  The segment \<open>*\<close> and the empty segment (what is left of a segment that was only an
  index) make the second path \<open>./*\<close>, which finds the first child whatever its tag.
\<close>

definition find_wild :: "string \<Rightarrow> xml \<Rightarrow> (xml list \<times> xml \<times> xml list) option" where
  "find_wild nm cur =
     (case List.extract (\<lambda>c. get_attr c ''name'' = Some nm) (children cur) of
        Some r \<Rightarrow> Some r
      | None \<Rightarrow> (case children cur of [] \<Rightarrow> None | c # cs \<Rightarrow> Some ([], c, cs)))"

text \<open>
  What the path language does with any other segment is a parameter \<open>pattern_find\<close> of the
  model: an error, nothing found, or the position of the child found.
\<close>

definition lookup_child ::
  "(string \<Rightarrow> xml list \<Rightarrow> py_error + nat option) \<Rightarrow> string \<Rightarrow> xml
   \<Rightarrow> py_error + (xml list \<times> xml \<times> xml list) option" where
  "lookup_child pattern_find nm cur =
     (if path_literal nm then Inr (find_child nm cur)
      else if nm = [] \<or> nm = ''*'' then Inr (find_wild nm cur)
      else
        (case pattern_find nm (children cur) of
           Inl e \<Rightarrow> Inl e
         | Inr None \<Rightarrow> Inr None
         | Inr (Some i) \<Rightarrow>
             (if i < length (children cur)
              then Inr (Some (take i (children cur), children cur ! i, drop (Suc i) (children cur)))
              else Inr None)))"

fun set_children :: "xml list \<Rightarrow> xml \<Rightarrow> xml" where
  "set_children kids (Elem n t a x old) = Elem n t a x kids"

fun set_text :: "string \<Rightarrow> xml \<Rightarrow> xml" where
  "set_text s (Elem n t a x kids) = Elem n t a (Some s) kids"

text \<open>
  The loop over the segments and the final assignment, as a descent that returns the
  updated element. An error result does not carry the elements created before it.
\<close>

fun set_path ::
  "(string \<Rightarrow> xml list \<Rightarrow> py_error + nat option) \<Rightarrow> (string \<Rightarrow> bool) \<Rightarrow> string list \<Rightarrow> string
   \<Rightarrow> xml \<Rightarrow> py_error + xml" where
  "set_path pattern_find accepts [] txt current = Inr (set_text txt current)"
| "set_path pattern_find accepts (nm # rest) txt current =
     (case lookup_child pattern_find nm current of
        Inl e \<Rightarrow> Inl e
      | Inr (Some (before, child, after)) \<Rightarrow>
          (case set_path pattern_find accepts rest txt child of
             Inl e \<Rightarrow> Inl e
           | Inr child' \<Rightarrow> Inr (set_children (before @ child' # after) current))
      | Inr None \<Rightarrow>
          (if \<not> accepts nm then Inl (InvalidTagName nm)
           else
             (case set_path pattern_find accepts rest txt (Elem [] nm [] None []) of
                Inl e \<Rightarrow> Inl e
              | Inr child' \<Rightarrow> Inr (set_children (children current @ [child']) current))))"

text \<open>
  The text stored at the end; \<open>dumps\<close> stands for \<open>json.dumps(\<cdot>, ensure_ascii=False)\<close>
  and \<open>str_of\<close> for Python's \<open>str\<close>.
\<close>

definition text_of :: "(jvalue \<Rightarrow> string) \<Rightarrow> (jvalue \<Rightarrow> string) \<Rightarrow> jvalue \<Rightarrow> string" where
  "text_of dumps str_of v =
     (case v of
        JDict _ \<Rightarrow> dumps v
      | JList _ \<Rightarrow> dumps v
      | JNull \<Rightarrow> []
      | _ \<Rightarrow> str_of v)"

definition set_value_by_ref ::
  "(string \<Rightarrow> xml list \<Rightarrow> py_error + nat option) \<Rightarrow> (string \<Rightarrow> bool) \<Rightarrow>
   (jvalue \<Rightarrow> string) \<Rightarrow> (jvalue \<Rightarrow> string) \<Rightarrow> xml \<Rightarrow> string \<Rightarrow> jvalue \<Rightarrow> py_error + xml" where
  "set_value_by_ref pattern_find accepts dumps str_of data_root ref v =
     (let parts = path_parts ref
      in if parts = [] then Inr data_root
         else set_path pattern_find accepts (map strip_index parts) (text_of dumps str_of v)
                data_root)"





section \<open>Reading the form of a document\<close>

text \<open>
  What the PDF service finds at a path: no file, a file it cannot open, or a document with
  or without a catalog; the catalog may hold an \<open>/AcroForm\<close>, which may hold an \<open>/XFA\<close>
  entry, an array of objects or a single stream. An object of the array is given by its
  \<open>str\<close> and by the bytes \<open>_obj_to_bytes\<close> reads from it.
\<close>

record xfa_item =
  as_str :: string
  as_bytes :: string

datatype xfa = XfaArray "xfa_item list" | XfaStream string

record acroform =
  XFA :: "xfa option"

record catalog =
  AcroForm :: "acroform option"

datatype pdf_file = NoFile | Unreadable | Pdf "catalog option"

definition en_dash :: string where
  "en_dash = [CHR 0xE2, CHR 0x80, CHR 0x93]"

definition msg_no_root :: string where
  "msg_no_root = ''PDF nie zawiera katalogu /Root '' @ en_dash @ '' niepoprawny dokument.''"

definition msg_no_acroform :: string where
  "msg_no_acroform = ''PDF nie zawiera /AcroForm '' @ en_dash @ '' brak XFA.''"

definition msg_no_xfa :: string where
  "msg_no_xfa = ''PDF nie zawiera /XFA '' @ en_dash @ '' brak pakiet'' @ [CHR 0xC3, CHR 0xB3] @ ''w XFA.''"

definition msg_no_packets :: string where
  "msg_no_packets =
     ''Nie uda'' @ [CHR 0xC5, CHR 0x82] @ ''o si'' @ [CHR 0xC4, CHR 0x99] @ '' odczyta'' @
     [CHR 0xC4, CHR 0x87] @ '' '' @ [CHR 0xC5, CHR 0xBC] @ ''adnych pakiet'' @
     [CHR 0xC3, CHR 0xB3] @ ''w XFA.''"

text \<open>The loop over the pairs of the \<open>/XFA\<close> array; a trailing single object is dropped.\<close>

fun xfa_pairs :: "(string \<times> string) list \<Rightarrow> xfa_item list \<Rightarrow> (string \<times> string) list" where
  "xfa_pairs packets (name_obj # stream_obj # items) =
     xfa_pairs (dict_set (dropWhile (\<lambda>c. c = CHR ''/'') (as_str name_obj)) (as_bytes stream_obj) packets)
       items"
| "xfa_pairs packets _ = packets"

definition read_xfa_packets :: "string \<Rightarrow> pdf_file \<Rightarrow> py_error + (string \<times> string) list" where
  "read_xfa_packets pdf_path file =
     (case file of
        NoFile \<Rightarrow> Inl (FileNotFoundError (''Nie znaleziono pliku: '' @ pdf_path))
      | Unreadable \<Rightarrow> Inl PdfError
      | Pdf None \<Rightarrow> Inl (ValueError msg_no_root)
      | Pdf (Some root') \<Rightarrow>
          (case AcroForm root' of
             None \<Rightarrow> Inl (ValueError msg_no_acroform)
           | Some acro_form \<Rightarrow>
               (case XFA acro_form of
                  None \<Rightarrow> Inl (ValueError msg_no_xfa)
                | Some (XfaArray items) \<Rightarrow>
                    (let packets = xfa_pairs [] items
                     in if packets = [] then Inl (ValueError msg_no_packets) else Inr packets)
                | Some (XfaStream data) \<Rightarrow> Inr [(''xfa'', data)])))"

definition detect_form_type :: "pdf_file \<Rightarrow> string" where
  "detect_form_type file =
     (case file of
        NoFile \<Rightarrow> ''BrakPliku''
      | Unreadable \<Rightarrow> ''BladOdczytu''
      | Pdf None \<Rightarrow> ''NiepoprawnyPDF''
      | Pdf (Some root') \<Rightarrow>
          (case AcroForm root' of
             None \<Rightarrow> ''BrakFormularza''
           | Some acro_form \<Rightarrow>
               (case XFA acro_form of Some xfa \<Rightarrow> ''XFA'' | None \<Rightarrow> ''AcroForm'')))"

section \<open>Sample documents\<close>

text \<open>
  Documents the properties below are evaluated on: the form of the end-to-end scenario, a
  typed node with a typed child and a widget, two tables with repeated local names, a template
  with a repeated field name, \<open>str\<close> on strings, and a path lookup that finds nothing.
\<close>

definition sample_form :: "pdfobj list" where
  "sample_form =
     [Obj (Some ''name'') None None None None None None
        [Obj (Some ''first'') (Some ''/Tx'') None None None None None []],
      Obj (Some ''agree'') (Some ''/Btn'') None None None None None
        [Obj None None None (Some ''/Widget'') (Some (Some [''/Off'', ''/Yes''])) None None []],
      Obj (Some ''submit'') (Some ''/Btn'') (Some (Num 65536)) None None None None []]"

definition sample_nested :: "pdfobj" where
  "sample_nested =
     Obj (Some ''p'') (Some ''/Tx'') None None None None None
       [Obj (Some ''c'') (Some ''/Tx'') None None None None None [],
        Obj None None None (Some ''/Widget'') None None None []]"

definition sample_two_parents :: "pdfobj list" where
  "sample_two_parents =
     [Obj (Some ''A'') None None None None None None
        [Obj (Some ''B'') (Some ''/Tx'') None None None None None []],
      Obj (Some ''C'') None None None None None None
        [Obj (Some ''B'') (Some ''/Tx'') None None None None None []]]"

definition sample_two_cases :: "pdfobj list" where
  "sample_two_cases =
     [Obj (Some ''X'') None None None None None None
        [Obj (Some ''ab'') (Some ''/Tx'') None None None None None []],
      Obj (Some ''Y'') None None None None None None
        [Obj (Some ''AB'') (Some ''/Tx'') None None None None None []]]"

definition sample_template :: xml where
  "sample_template =
     Elem [] ''template'' [] None
       [Elem [] ''subform'' [(''name'', ''form1'')] None
          [Elem [] ''field'' [(''name'', ''F'')] None
             [Elem [] ''bind'' [(''match'', ''dataRef''), (''ref'', ''$.a'')] None []],
           Elem [] ''field'' [(''name'', ''F'')] None
             [Elem [] ''bind'' [(''match'', ''dataRef''), (''ref'', ''$.b'')] None []]]]"

definition str_of_string :: "jvalue \<Rightarrow> string" where
  "str_of_string v = (case v of JStr s \<Rightarrow> s | _ \<Rightarrow> [])"

definition no_pattern :: "string \<Rightarrow> xml list \<Rightarrow> py_error + nat option" where
  "no_pattern seg cs = Inr None"

section \<open>Properties of the appearance inspector and the button applier\<close>

lemma gan_set_AS: "get_appearance_names (set_AS x w) = get_appearance_names w"
  by (cases w) (simp add: get_appearance_names_def)

lemma gan_on_nonempty: "fst (get_appearance_names w) \<noteq> []"
  by (auto simp: get_appearance_names_def Let_def split: option.splits list.splits)

lemma gan_off: "snd (get_appearance_names w) = ''/Off''"
  by (auto simp: get_appearance_names_def Let_def split: option.splits list.splits)

lemma add_on_names_set: "set (add_on_names acc ns) = set acc \<union> set ns"
  unfolding add_on_names_def
  by (induction ns arbitrary: acc) auto

lemma collect_names_snoc:
  "collect_names (ws @ [w]) = collect_step (collect_names ws) w"
  by (simp add: collect_names_def)

lemma collect_names_fst_set:
  "set (fst (collect_names ws)) = (\<Union>w \<in> set ws. set (fst (get_appearance_names w)))"
proof (induction ws rule: rev_induct)
  case Nil
  show ?case by (simp add: collect_names_def)
next
  case (snoc w ws)
  show ?case
    using snoc.IH
    by (auto simp: collect_names_snoc collect_step_def add_on_names_set split: prod.splits)
qed

lemma collect_step_snd: "snd (collect_step st w) = ''/Off''"
  using gan_off [of w]
  by (cases "get_appearance_names w") (simp add: collect_step_def)

lemma collect_names_snd: "snd (collect_names ws) = ''/Off''"
proof (cases ws rule: rev_cases)
  case Nil
  then show ?thesis by (simp add: collect_names_def)
next
  case (snoc ws' w)
  then show ?thesis by (simp only: collect_names_snoc collect_step_snd)
qed

lemma collect_names_nonempty: "ws \<noteq> [] \<Longrightarrow> fst (collect_names ws) \<noteq> []"
proof -
  assume "ws \<noteq> []"
  then obtain w where w: "w \<in> set ws" by (cases ws) auto
  obtain n where n: "n \<in> set (fst (get_appearance_names w))"
    using gan_on_nonempty [of w] by (cases "fst (get_appearance_names w)") auto
  from w n have "n \<in> set (fst (collect_names ws))"
    unfolding collect_names_fst_set by blast
  then show ?thesis by auto
qed

lemma collect_names_map_AS:
  "(\<And>w. get_appearance_names (g w) = get_appearance_names w) \<Longrightarrow>
   collect_names (map g ws) = collect_names ws"
proof (induction ws rule: rev_induct)
  case Nil
  show ?case by simp
next
  case (snoc w ws)
  then show ?case by (simp add: collect_names_snoc collect_step_def)
qed

lemma first_candidate_ok: "cs \<noteq> [] \<Longrightarrow> \<exists>c. first_candidate cs = Inr (Some c) \<and> c \<in> set cs"
  by (cases cs) (auto simp: first_candidate_def)

lemma normalize_ok:
  assumes "cs \<noteq> []"
  shows "\<exists>r. normalize_on_value v cs = Inr r \<and> (\<forall>c. r = Some c \<longrightarrow> c \<in> set cs)"
proof (cases v)
  case (JStr s)
  show ?thesis
  proof (cases "find (\<lambda>c. lower (if hd (strip s) \<noteq> CHR ''/'' then CHR ''/'' # strip s else strip s) = lower c) cs")
    case None
    then show ?thesis using first_candidate_ok [OF assms] JStr
      by (auto simp: normalize_on_value_def Let_def)
  next
    case (Some c)
    then have "c \<in> set cs" by (auto simp: find_Some_iff)
    then show ?thesis using Some JStr first_candidate_ok [OF assms]
      by (auto simp: normalize_on_value_def Let_def)
  qed
qed (use first_candidate_ok [OF assms] in \<open>auto simp: normalize_on_value_def\<close>)

lemma selected_on_ok:
  "\<exists>r. selected_on ws v = Inr r \<and> (\<forall>c. r = Some c \<longrightarrow> c \<in> set (fst (collect_names ws)))"
  using normalize_ok [of "fst (collect_names ws)" v]
  by (auto simp: selected_on_def Let_def)

lemma selected_on_map:
  "(\<And>w. get_appearance_names (g w) = get_appearance_names w) \<Longrightarrow>
   selected_on (map g ws) v = selected_on ws v"
  by (simp add: selected_on_def collect_names_map_AS)

lemma gan_radio_widget: "get_appearance_names (radio_widget s w) = get_appearance_names w"
  by (auto simp: radio_widget_def gan_set_AS split: prod.splits)

lemma gan_checkbox_widget: "get_appearance_names (checkbox_widget w) = get_appearance_names w"
  by (auto simp: checkbox_widget_def gan_set_AS Let_def split: prod.splits)

lemma set_AS_idem: "set_AS x (set_AS y w) = set_AS x w"
  by (cases w) simp

lemma set_V_idem: "set_V x (set_V y f) = set_V x f"
  by (cases f) simp

lemma flags_set_V: "get_field_flags (set_V x f) = get_field_flags f"
  by (cases f) (simp add: get_field_flags_def)

lemma radio_widget_idem: "radio_widget s (radio_widget s w) = radio_widget s w"
  by (auto simp: radio_widget_def gan_set_AS set_AS_idem split: prod.splits)

lemma checkbox_widget_idem: "checkbox_widget (checkbox_widget w) = checkbox_widget w"
  by (auto simp: checkbox_widget_def gan_set_AS set_AS_idem Let_def split: prod.splits)

lemma set_checkbox_or_radio_total:
  "\<exists>s. set_checkbox_or_radio fld ws v = Inr s"
  using selected_on_ok [of ws v]
  by (auto simp: set_checkbox_or_radio_def Let_def split: option.splits)

lemma scr_push: "is_push_button (get_field_flags fld) \<Longrightarrow> set_checkbox_or_radio fld ws v = Inr (fld, ws)"
  by (simp add: set_checkbox_or_radio_def)

lemma scr_off:
  assumes "\<not> is_push_button (get_field_flags fld)"
    and "selected_on ws v = Inr r" and "r = None \<or> r = Some []"
  shows "set_checkbox_or_radio fld ws v =
         Inr (set_V (PName ''/Off'') fld, map (set_AS (PName ''/Off'')) ws)"
  using assms by (auto simp: set_checkbox_or_radio_def collect_names_snd Let_def)

lemma scr_radio:
  assumes "\<not> is_push_button (get_field_flags fld)" and "is_radio (get_field_flags fld)"
    and "selected_on ws v = Inr (Some s)" and "s \<noteq> []"
  shows "set_checkbox_or_radio fld ws v = Inr (set_V (PName s) fld, map (radio_widget s) ws)"
  using assms by (simp add: set_checkbox_or_radio_def Let_def)

lemma scr_checkbox:
  assumes "\<not> is_push_button (get_field_flags fld)" and "\<not> is_radio (get_field_flags fld)"
    and "selected_on ws v = Inr (Some s)" and "s \<noteq> []"
  shows "set_checkbox_or_radio fld ws v = Inr (set_V (PName s) fld, map checkbox_widget ws)"
  using assms by (simp add: set_checkbox_or_radio_def Let_def)

lemma two_keys:
  assumes "distinct ks" and "set ks = {a, b}" and "a \<noteq> b"
  shows "ks = [a, b] \<or> ks = [b, a]"
proof -
  have "length ks = 2" using assms distinct_card [of ks] by simp
  then obtain x y where ks: "ks = [x, y]"
    by (cases ks; cases "tl ks") auto
  with assms show ?thesis by auto
qed

text \<open>
  C6: a widget whose normal-appearance dictionary has exactly the keys \<open>/Off\<close> and \<open>/Yes\<close>
  (in either order) has the on-names \<open>[/Yes]\<close> and the off-name \<open>/Off\<close>, and so has a
  widget with no appearance dictionary or with no normal sub-dictionary. The function is the
  same in \<open>fill_acroform.py\<close> and \<open>extract_acroform.py\<close>; PDF names carry their leading
  slash, as pikepdf prints them.
\<close>

theorem appearance_names_off_yes:
  "(AP w = None \<or> AP w = Some None \<longrightarrow> get_appearance_names w = ([''/Yes''], ''/Off'')) \<and>
   (AP w = Some (Some ks) \<and> distinct ks \<and> set ks = {''/Off'', ''/Yes''} \<longrightarrow>
      get_appearance_names w = ([''/Yes''], ''/Off''))"
proof (intro conjI impI)
  assume "AP w = None \<or> AP w = Some None"
  then show "get_appearance_names w = ([''/Yes''], ''/Off'')"
    by (auto simp: get_appearance_names_def)
next
  assume a: "AP w = Some (Some ks) \<and> distinct ks \<and> set ks = {''/Off'', ''/Yes''}"
  have ne: "''/Off'' \<noteq> ''/Yes''" by simp
  from a have ap: "AP w = Some (Some ks)" and d: "distinct ks"
    and s: "set ks = {''/Off'', ''/Yes''}" by blast+
  from two_keys [OF d s ne] show "get_appearance_names w = ([''/Yes''], ''/Off'')"
  proof
    assume "ks = [''/Off'', ''/Yes'']"
    with ap show ?thesis by (simp add: get_appearance_names_def)
  next
    assume "ks = [''/Yes'', ''/Off'']"
    with ap show ?thesis by (simp add: get_appearance_names_def)
  qed
qed

theorem appearance_names_off_yes_witness:
  "get_appearance_names (Obj None None None None None None None []) = ([''/Yes''], ''/Off'') \<and>
   get_appearance_names (Obj None None None None (Some None) None None []) = ([''/Yes''], ''/Off'') \<and>
   get_appearance_names (Obj None None None None (Some (Some [''/Off'', ''/Yes''])) None None [])
     = ([''/Yes''], ''/Off'')"
  using appearance_names_off_yes [of "Obj None None None None None None None []" "[]"]
    appearance_names_off_yes [of "Obj None None None None (Some None) None None []" "[]"]
    appearance_names_off_yes [of "Obj None None None None (Some (Some [''/Off'', ''/Yes''])) None None []"
      "[''/Off'', ''/Yes'']"]
  by simp

text \<open>
  C10: the on-name list of a widget is never empty, and a normal-appearance dictionary with
  the only key \<open>/Off\<close> gives the fallback \<open>[/Yes]\<close>. So the candidate list collected
  from a non-empty widget list is non-empty, normalization of any value against a non-empty
  candidate list returns without \<open>IndexError\<close>, and the applier, which calls normalization
  only on a non-empty candidate list, always returns.
\<close>

theorem on_names_never_empty:
  "fst (get_appearance_names w) \<noteq> [] \<and>
   (AP w = Some (Some [''/Off'']) \<longrightarrow> get_appearance_names w = ([''/Yes''], ''/Off'')) \<and>
   (ws \<noteq> [] \<longrightarrow> fst (collect_names ws) \<noteq> []) \<and>
   (cs \<noteq> [] \<longrightarrow> (\<exists>r. normalize_on_value v cs = Inr r)) \<and>
   (\<exists>r. selected_on ws v = Inr r) \<and>
   (\<exists>s. set_checkbox_or_radio fld ws v = Inr s)"
proof (intro conjI impI)
  show "fst (get_appearance_names w) \<noteq> []" by (rule gan_on_nonempty)
next
  assume "AP w = Some (Some [''/Off''])"
  then show "get_appearance_names w = ([''/Yes''], ''/Off'')"
    by (simp add: get_appearance_names_def)
next
  assume "ws \<noteq> []"
  then show "fst (collect_names ws) \<noteq> []" by (rule collect_names_nonempty)
next
  assume "cs \<noteq> []"
  then show "\<exists>r. normalize_on_value v cs = Inr r" using normalize_ok by blast
next
  show "\<exists>r. selected_on ws v = Inr r" using selected_on_ok by blast
next
  show "\<exists>s. set_checkbox_or_radio fld ws v = Inr s" by (rule set_checkbox_or_radio_total)
qed

theorem on_names_never_empty_witness:
  "get_appearance_names (Obj None None None None (Some (Some [''/Off''])) None None [])
     = ([''/Yes''], ''/Off'') \<and>
   fst (collect_names [Obj None None None None (Some (Some [''/Off''])) None None []]) = [''/Yes''] \<and>
   normalize_on_value (JBool True) [''/Yes''] = Inr (Some ''/Yes'') \<and>
   set_checkbox_or_radio (Obj (Some ''agree'') (Some ''/Btn'') None None None None None [])
       [Obj None None None None (Some (Some [''/Off''])) None None []] (JBool True)
     = Inr (Obj (Some ''agree'') (Some ''/Btn'') None None None (Some (PName ''/Yes'')) None [],
            [Obj None None None None (Some (Some [''/Off''])) None (Some (PName ''/Yes'')) []])"
  using on_names_never_empty [of "Obj None None None None (Some (Some [''/Off''])) None None []"
      "[Obj None None None None (Some (Some [''/Off''])) None None []]" "[''/Yes'']" "JBool True"
      "Obj (Some ''agree'') (Some ''/Btn'') None None None None None []"]
  by (simp add: get_appearance_names_def collect_names_def collect_step_def add_on_names_def
      normalize_on_value_def first_candidate_def set_checkbox_or_radio_def selected_on_def
      get_field_flags_def is_push_button_def is_radio_def checkbox_widget_def Let_def)

text \<open>
  C7: applying a value to a button field and its widgets, and then the same value again to
  the result, leaves the stored value and every widget's state as the first application set
  them. This holds for every flag word and every value, in particular for a checkbox and a
  truthy value.
\<close>

theorem checkbox_apply_idempotent:
  "\<exists>fld' ws'. set_checkbox_or_radio fld ws v = Inr (fld', ws') \<and>
       set_checkbox_or_radio fld' ws' v = Inr (fld', ws')"
proof (cases "is_push_button (get_field_flags fld)")
  case True
  then show ?thesis by (simp add: scr_push)
next
  case np: False
  obtain r where r: "selected_on ws v = Inr r" using selected_on_ok by blast
  have np': "\<not> is_push_button (get_field_flags (set_V x fld))" for x
    using np by (simp add: flags_set_V)
  show ?thesis
  proof (cases "r = None \<or> r = Some []")
    case True
    have r': "selected_on (map (set_AS (PName ''/Off'')) ws) v = Inr r"
      using r by (simp add: selected_on_map gan_set_AS)
    have "set_checkbox_or_radio (set_V (PName ''/Off'') fld) (map (set_AS (PName ''/Off'')) ws) v
          = Inr (set_V (PName ''/Off'') fld, map (set_AS (PName ''/Off'')) ws)"
      by (simp add: scr_off [OF np' r' True] set_V_idem set_AS_idem comp_def)
    then show ?thesis using scr_off [OF np r True] by simp
  next
    case False
    then obtain s where s: "r = Some s" "s \<noteq> []" by (cases r) auto
    show ?thesis
    proof (cases "is_radio (get_field_flags fld)")
      case True
      have rad': "is_radio (get_field_flags (set_V x fld))" for x
        using True by (simp add: flags_set_V)
      have r': "selected_on (map (radio_widget s) ws) v = Inr (Some s)"
        using r s by (simp add: selected_on_map gan_radio_widget)
      have "set_checkbox_or_radio (set_V (PName s) fld) (map (radio_widget s) ws) v
            = Inr (set_V (PName s) fld, map (radio_widget s) ws)"
        by (simp add: scr_radio [OF np' rad' r' s(2)] set_V_idem radio_widget_idem comp_def)
      then show ?thesis using scr_radio [OF np True r [unfolded s(1)] s(2)] by simp
    next
      case False
      have rad': "\<not> is_radio (get_field_flags (set_V x fld))" for x
        using False by (simp add: flags_set_V)
      have r': "selected_on (map checkbox_widget ws) v = Inr (Some s)"
        using r s by (simp add: selected_on_map gan_checkbox_widget)
      have "set_checkbox_or_radio (set_V (PName s) fld) (map checkbox_widget ws) v
            = Inr (set_V (PName s) fld, map checkbox_widget ws)"
        by (simp add: scr_checkbox [OF np' rad' r' s(2)] set_V_idem checkbox_widget_idem comp_def)
      then show ?thesis using scr_checkbox [OF np False r [unfolded s(1)] s(2)] by simp
    qed
  qed
qed

theorem checkbox_apply_idempotent_witness:
  "set_checkbox_or_radio (Obj (Some ''agree'') (Some ''/Btn'') None None None None None [])
       [Obj None None None (Some ''/Widget'') (Some (Some [''/Off'', ''/Yes''])) None None []]
       (JBool True)
     = Inr (Obj (Some ''agree'') (Some ''/Btn'') None None None (Some (PName ''/Yes'')) None [],
            [Obj None None None (Some ''/Widget'') (Some (Some [''/Off'', ''/Yes'']))
               None (Some (PName ''/Yes'')) []]) \<and>
   set_checkbox_or_radio
       (Obj (Some ''agree'') (Some ''/Btn'') None None None (Some (PName ''/Yes'')) None [])
       [Obj None None None (Some ''/Widget'') (Some (Some [''/Off'', ''/Yes'']))
          None (Some (PName ''/Yes'')) []]
       (JBool True)
     = Inr (Obj (Some ''agree'') (Some ''/Btn'') None None None (Some (PName ''/Yes'')) None [],
            [Obj None None None (Some ''/Widget'') (Some (Some [''/Off'', ''/Yes'']))
               None (Some (PName ''/Yes'')) []])"
  using checkbox_apply_idempotent [of "Obj (Some ''agree'') (Some ''/Btn'') None None None None None []"
      "[Obj None None None (Some ''/Widget'') (Some (Some [''/Off'', ''/Yes''])) None None []]"
      "JBool True"]
  by (simp add: get_appearance_names_def collect_names_def collect_step_def add_on_names_def
      normalize_on_value_def first_candidate_def set_checkbox_or_radio_def selected_on_def
      get_field_flags_def is_push_button_def is_radio_def checkbox_widget_def Let_def)

lemma AS_set_AS: "AS (set_AS x w) = Some x"
  by (cases w) simp

lemma V_set_V: "V (set_V x f) = Some x"
  by (cases f) simp

lemma AS_radio_widget:
  "AS (radio_widget X w) =
   Some (PName (if X \<in> set (fst (get_appearance_names w)) then X else snd (get_appearance_names w)))"
  by (cases "get_appearance_names w") (simp add: radio_widget_def AS_set_AS)

lemma strip_A: "strip ''A'' = ''A''"
  by (simp add: strip_def is_space_def)

lemma lower_sA: "lower ''/A'' = ''/a''"
  by (simp add: lower_def lower_char_def)

lemma lower_sB: "lower ''/B'' = ''/b''"
  by (simp add: lower_def lower_char_def)

text \<open>
  C4, as the code has it: on a radio field, when normalization selects a non-empty on-name
  \<open>X\<close>, the stored value is \<open>X\<close>, every widget whose own on-names contain \<open>X\<close> shows
  \<open>X\<close>, every other widget shows its own off-name, and at least one widget shows \<open>X\<close>;
  when nothing is selected, the stored value and every widget's state are the off-name.
  Nothing limits the widgets that show \<open>X\<close> to one: two widgets with the same on-name
  both show it.
\<close>

theorem radio_apply_states:
  assumes "is_radio (get_field_flags fld)" and "\<not> is_push_button (get_field_flags fld)"
  shows "(selected_on ws v = Inr (Some X) \<and> X \<noteq> [] \<longrightarrow>
           (\<exists>fld' ws'. set_checkbox_or_radio fld ws v = Inr (fld', ws') \<and>
              V fld' = Some (PName X) \<and> length ws' = length ws \<and>
              (\<forall>i < length ws.
                 AS (ws' ! i) =
                 Some (PName (if X \<in> set (fst (get_appearance_names (ws ! i))) then X
                              else snd (get_appearance_names (ws ! i))))) \<and>
              (\<exists>i < length ws. X \<in> set (fst (get_appearance_names (ws ! i))) \<and>
                 AS (ws' ! i) = Some (PName X)))) \<and>
         (selected_on ws v = Inr None \<or> selected_on ws v = Inr (Some []) \<longrightarrow>
           (\<exists>fld' ws'. set_checkbox_or_radio fld ws v = Inr (fld', ws') \<and>
              V fld' = Some (PName (snd (collect_names ws))) \<and> length ws' = length ws \<and>
              (\<forall>i < length ws. AS (ws' ! i) = Some (PName (snd (collect_names ws))))))"
proof (intro conjI impI)
  assume a: "selected_on ws v = Inr (Some X) \<and> X \<noteq> []"
  then have sel: "selected_on ws v = Inr (Some X)" and ne: "X \<noteq> []" by simp_all
  have res: "set_checkbox_or_radio fld ws v = Inr (set_V (PName X) fld, map (radio_widget X) ws)"
    by (rule scr_radio [OF assms(2) assms(1) sel ne])
  have "X \<in> set (fst (collect_names ws))"
    using selected_on_ok [of ws v] sel by auto
  then obtain w where w: "w \<in> set ws" "X \<in> set (fst (get_appearance_names w))"
    unfolding collect_names_fst_set by blast
  then obtain i where i: "i < length ws" "ws ! i = w" by (auto simp: in_set_conv_nth)
  have one: "\<exists>i < length ws. X \<in> set (fst (get_appearance_names (ws ! i))) \<and>
                 AS (map (radio_widget X) ws ! i) = Some (PName X)"
    using i w by (auto simp: AS_radio_widget)
  show "\<exists>fld' ws'. set_checkbox_or_radio fld ws v = Inr (fld', ws') \<and>
              V fld' = Some (PName X) \<and> length ws' = length ws \<and>
              (\<forall>i < length ws.
                 AS (ws' ! i) =
                 Some (PName (if X \<in> set (fst (get_appearance_names (ws ! i))) then X
                              else snd (get_appearance_names (ws ! i))))) \<and>
              (\<exists>i < length ws. X \<in> set (fst (get_appearance_names (ws ! i))) \<and>
                 AS (ws' ! i) = Some (PName X))"
    using res one by (simp add: V_set_V AS_radio_widget)
next
  assume a: "selected_on ws v = Inr None \<or> selected_on ws v = Inr (Some [])"
  then obtain r where r: "selected_on ws v = Inr r" "r = None \<or> r = Some []" by auto
  have res: "set_checkbox_or_radio fld ws v =
             Inr (set_V (PName ''/Off'') fld, map (set_AS (PName ''/Off'')) ws)"
    by (rule scr_off [OF assms(2) r])
  show "\<exists>fld' ws'. set_checkbox_or_radio fld ws v = Inr (fld', ws') \<and>
              V fld' = Some (PName (snd (collect_names ws))) \<and> length ws' = length ws \<and>
              (\<forall>i < length ws. AS (ws' ! i) = Some (PName (snd (collect_names ws))))"
    using res by (simp add: V_set_V AS_set_AS collect_names_snd)
qed

theorem radio_apply_states_witness:
  "is_radio (get_field_flags (Obj (Some ''grp'') (Some ''/Btn'') (Some (Num 32768)) None None None None [])) \<and>
   \<not> is_push_button (get_field_flags (Obj (Some ''grp'') (Some ''/Btn'') (Some (Num 32768)) None None None None [])) \<and>
   selected_on
     [Obj None None None (Some ''/Widget'') (Some (Some [''/Off'', ''/A''])) None None [],
      Obj None None None (Some ''/Widget'') (Some (Some [''/B'', ''/Off''])) None None []]
     (JStr ''A'') = Inr (Some ''/A'') \<and>
   set_checkbox_or_radio
     (Obj (Some ''grp'') (Some ''/Btn'') (Some (Num 32768)) None None None None [])
     [Obj None None None (Some ''/Widget'') (Some (Some [''/Off'', ''/A''])) None None [],
      Obj None None None (Some ''/Widget'') (Some (Some [''/B'', ''/Off''])) None None []]
     (JStr ''A'')
   = Inr (Obj (Some ''grp'') (Some ''/Btn'') (Some (Num 32768)) None None
            (Some (PName ''/A'')) None [],
          [Obj None None None (Some ''/Widget'') (Some (Some [''/Off'', ''/A'']))
             None (Some (PName ''/A'')) [],
           Obj None None None (Some ''/Widget'') (Some (Some [''/B'', ''/Off'']))
             None (Some (PName ''/Off'')) []]) \<and>
   selected_on
     [Obj None None None (Some ''/Widget'') (Some (Some [''/Off'', ''/A''])) None None []]
     (JBool False) = Inr None \<and>
   set_checkbox_or_radio
     (Obj (Some ''grp'') (Some ''/Btn'') (Some (Num 32768)) None None None None [])
     [Obj None None None (Some ''/Widget'') (Some (Some [''/Off'', ''/A''])) None None []]
     (JBool False)
   = Inr (Obj (Some ''grp'') (Some ''/Btn'') (Some (Num 32768)) None None
            (Some (PName ''/Off'')) None [],
          [Obj None None None (Some ''/Widget'') (Some (Some [''/Off'', ''/A'']))
             None (Some (PName ''/Off'')) []])"
  using radio_apply_states
    [of "Obj (Some ''grp'') (Some ''/Btn'') (Some (Num 32768)) None None None None []"
      "[Obj None None None (Some ''/Widget'') (Some (Some [''/Off'', ''/A''])) None None [],
        Obj None None None (Some ''/Widget'') (Some (Some [''/B'', ''/Off''])) None None []]"
      "JStr ''A''" "''/A''"]
    radio_apply_states
    [of "Obj (Some ''grp'') (Some ''/Btn'') (Some (Num 32768)) None None None None []"
      "[Obj None None None (Some ''/Widget'') (Some (Some [''/Off'', ''/A''])) None None []]"
      "JBool False" "''/A''"]
  by (simp add: set_checkbox_or_radio_def selected_on_def collect_names_def collect_step_def
      add_on_names_def get_appearance_names_def normalize_on_value_def first_candidate_def
      get_field_flags_def is_push_button_def is_radio_def radio_widget_def Let_def
      strip_A lower_sA lower_sB)

text \<open>
  C4 as stated fails: with two widgets that both have the on-name \<open>/A\<close>, the value
  \<open>A\<close> puts both of them in state \<open>/A\<close>, not exactly one.
\<close>

theorem radio_two_widgets_on_counterexample:
  "set_checkbox_or_radio
     (Obj (Some ''grp'') (Some ''/Btn'') (Some (Num 32768)) None None None None [])
     [Obj None None None (Some ''/Widget'') (Some (Some [''/Off'', ''/A''])) None None [],
      Obj None None None (Some ''/Widget'') (Some (Some [''/A'', ''/Off''])) None None []]
     (JStr ''A'')
   = Inr (Obj (Some ''grp'') (Some ''/Btn'') (Some (Num 32768)) None None
            (Some (PName ''/A'')) None [],
          [Obj None None None (Some ''/Widget'') (Some (Some [''/Off'', ''/A'']))
             None (Some (PName ''/A'')) [],
           Obj None None None (Some ''/Widget'') (Some (Some [''/A'', ''/Off'']))
             None (Some (PName ''/A'')) []])"
  by (simp add: set_checkbox_or_radio_def selected_on_def collect_names_def collect_step_def
      add_on_names_def get_appearance_names_def normalize_on_value_def first_candidate_def
      get_field_flags_def is_push_button_def is_radio_def radio_widget_def Let_def
      strip_A lower_sA)

section \<open>Properties of the flattener and the fillable-field listing\<close>

lemma flag_bit: "(and (ff::int) (push_bit n 1) \<noteq> 0) = bit ff n"
  by (simp add: bit_iff_and_push_bit_not_eq_0)

lemma is_read_only_bit: "is_read_only ff = bit ff 0"
  unfolding is_read_only_def by (rule flag_bit)

lemma is_push_button_bit: "is_push_button ff = bit ff 16"
  unfolding is_push_button_def by (rule flag_bit)

lemma is_radio_bit: "is_radio ff = bit ff 15"
  unfolding is_radio_def by (rule flag_bit)

lemma walk_fields_unfold:
  "walk_fields n p =
     concat (map (\<lambda>c. walk_fields c (join_name p (name_of n)))
               (filter (\<lambda>kid. \<not> is_widget kid) (Kids n))) @
     (if FT n \<noteq> None
      then [\<lparr>name = join_name p (name_of n), field = n, widgets = filter is_widget (Kids n)\<rparr>]
      else [])"
  by (cases n) (simp add: name_of_def Let_def)

lemma field_nodes_unfold:
  "field_nodes n = concat (map field_nodes (filter (\<lambda>kid. \<not> is_widget kid) (Kids n))) @ [n]"
  by (cases n) simp

lemma walk_fields_nodes:
  "map field (walk_fields n p) = filter (\<lambda>m. FT m \<noteq> None) (field_nodes n)"
proof (induction n p rule: walk_fields.induct)
  case (1 t ft ff st ap v as kids parent_name)
  have "map field (walk_fields c (join_name parent_name (to_str t)))
        = filter (\<lambda>m. FT m \<noteq> None) (field_nodes c)"
    if "c \<in> set (filter (\<lambda>kid. \<not> is_widget kid) kids)" for c
    using "1.IH" [OF refl refl refl that] .
  then have "map (\<lambda>c. map field (walk_fields c (join_name parent_name (to_str t))))
               (filter (\<lambda>kid. \<not> is_widget kid) kids)
             = map (\<lambda>c. filter (\<lambda>m. FT m \<noteq> None) (field_nodes c))
               (filter (\<lambda>kid. \<not> is_widget kid) kids)"
    by (intro map_cong refl)
  then have E: "concat (map (\<lambda>c. map field (walk_fields c (join_name parent_name (to_str t))))
               (filter (\<lambda>kid. \<not> is_widget kid) kids))
             = concat (map (\<lambda>c. filter (\<lambda>m. FT m \<noteq> None) (field_nodes c))
               (filter (\<lambda>kid. \<not> is_widget kid) kids))"
    by (rule arg_cong)
  show ?case
    by (simp add: Let_def map_concat filter_concat comp_def E)
qed

lemma walk_fields_entry:
  "e \<in> set (walk_fields n p) \<Longrightarrow>
   FT (field e) \<noteq> None \<and> widgets e = filter is_widget (Kids (field e))"
proof (induction n p rule: walk_fields.induct)
  case (1 t ft ff st ap v as kids parent_name)
  from "1.prems" show ?case
    using "1.IH" [OF refl refl refl]
    by (auto simp: Let_def split: if_splits)
qed

text \<open>
  C3: the flattened list, read as field handles, is the list of the field nodes that carry
  \<open>/FT\<close>, in depth-first order with the children in \<open>/Kids\<close> order: one entry for each
  typed node and none for a node without \<open>/FT\<close>. The field nodes are the root fields and,
  below a node, its kids that are not of subtype \<open>/Widget\<close>; the kids of that subtype are
  the node's widgets, and every entry carries them. A node's entries are those of its child
  fields followed by its own entry, if it is typed; so a typed node with child fields yields
  both, the children's entries first.
\<close>

theorem flatten_emits_typed_nodes:
  "map field (flatten_all_fields roots) =
     filter (\<lambda>m. FT m \<noteq> None) (concat (map field_nodes roots)) \<and>
   (\<forall>e \<in> set (flatten_all_fields roots).
      FT (field e) \<noteq> None \<and> widgets e = filter is_widget (Kids (field e))) \<and>
   walk_fields n p =
     concat (map (\<lambda>c. walk_fields c (join_name p (name_of n)))
               (filter (\<lambda>kid. \<not> is_widget kid) (Kids n))) @
     (if FT n \<noteq> None
      then [\<lparr>name = join_name p (name_of n), field = n, widgets = filter is_widget (Kids n)\<rparr>]
      else [])"
proof (intro conjI)
  show "map field (flatten_all_fields roots) =
     filter (\<lambda>m. FT m \<noteq> None) (concat (map field_nodes roots))"
    by (simp add: flatten_all_fields_def map_concat filter_concat comp_def walk_fields_nodes)
next
  show "\<forall>e \<in> set (flatten_all_fields roots).
      FT (field e) \<noteq> None \<and> widgets e = filter is_widget (Kids (field e))"
    using walk_fields_entry by (auto simp: flatten_all_fields_def)
next
  show "walk_fields n p =
     concat (map (\<lambda>c. walk_fields c (join_name p (name_of n)))
               (filter (\<lambda>kid. \<not> is_widget kid) (Kids n))) @
     (if FT n \<noteq> None
      then [\<lparr>name = join_name p (name_of n), field = n, widgets = filter is_widget (Kids n)\<rparr>]
      else [])"
    by (rule walk_fields_unfold)
qed

theorem flatten_emits_typed_nodes_witness:
  "flatten_all_fields [sample_nested] =
     [\<lparr>name = ''p.c'', field = Obj (Some ''c'') (Some ''/Tx'') None None None None None [],
        widgets = []\<rparr>,
      \<lparr>name = ''p'', field = sample_nested,
        widgets = [Obj None None None (Some ''/Widget'') None None None []]\<rparr>] \<and>
   map name (flatten_all_fields sample_form) = [''name.first'', ''agree'', ''submit''] \<and>
   map field (flatten_all_fields sample_form) =
     filter (\<lambda>m. FT m \<noteq> None) (concat (map field_nodes sample_form))"
  using flatten_emits_typed_nodes [of sample_form sample_nested "[]"]
    flatten_emits_typed_nodes [of "[sample_nested]" sample_nested "[]"]
  by (simp add: flatten_all_fields_def sample_form_def sample_nested_def join_name_def to_str_def
      is_widget_def name_of_def Let_def)

lemma join_lines: "ls \<noteq> [] \<Longrightarrow> join sep ls @ sep = concat (map (\<lambda>l. l @ sep) ls)"
  by (induction sep ls rule: join.induct) simp_all

text \<open>
  C8: the listing holds the full names of exactly the entries with a non-empty name that are
  not read-only (flag bit 0), not push buttons (\<open>/Btn\<close> with flag bit 16) and not signature
  fields, in table order; the file's text is each of these names followed by a newline.
\<close>

theorem fillable_list:
  "fillable_lines flds =
     map name (filter (\<lambda>f. name f \<noteq> [] \<and> \<not> bit (get_field_flags (field f)) 0 \<and>
                          \<not> (to_str (FT (field f)) = ''/Btn'' \<and> bit (get_field_flags (field f)) 16) \<and>
                          to_str (FT (field f)) \<noteq> ''/Sig'') flds) \<and>
   write_fillable_list flds = concat (map (\<lambda>l. l @ [CHR 0x0A]) (fillable_lines flds))"
proof
  show "fillable_lines flds =
     map name (filter (\<lambda>f. name f \<noteq> [] \<and> \<not> bit (get_field_flags (field f)) 0 \<and>
                          \<not> (to_str (FT (field f)) = ''/Btn'' \<and> bit (get_field_flags (field f)) 16) \<and>
                          to_str (FT (field f)) \<noteq> ''/Sig'') flds)"
    by (induction flds)
      (simp_all add: Let_def is_read_only_bit is_push_button_bit)
next
  show "write_fillable_list flds = concat (map (\<lambda>l. l @ [CHR 0x0A]) (fillable_lines flds))"
    by (simp add: write_fillable_list_def Let_def join_lines)
qed

theorem fillable_list_witness:
  "write_fillable_list (flatten_all_fields sample_form) =
     ''name.first'' @ [CHR 0x0A] @ ''agree'' @ [CHR 0x0A]"
  using fillable_list [of "flatten_all_fields sample_form"]
  by (simp add: write_fillable_list_def flatten_all_fields_def sample_form_def join_name_def
      to_str_def is_widget_def name_of_def get_field_flags_def is_read_only_def
      is_push_button_def Let_def)

section \<open>Properties of the name resolution\<close>

lemma map_of_dict_set: "map_of (dict_set k v d) = (map_of d)(k \<mapsto> v)"
  by (induction d) auto

lemma by_name_snoc:
  "by_name (fs @ [f]) = (if name f \<noteq> [] then dict_set (name f) f (by_name fs) else by_name fs)"
  by (simp add: by_name_def)

lemma map_of_by_name:
  "map_of (by_name fs) k =
     (if k \<noteq> [] \<and> filter (\<lambda>f. name f = k) fs \<noteq> []
      then Some (last (filter (\<lambda>f. name f = k) fs)) else None)"
proof (induction fs rule: rev_induct)
  case Nil
  show ?case by (simp add: by_name_def)
next
  case (snoc f fs)
  show ?case
  proof (cases "name f = k")
    case True
    then show ?thesis using snoc.IH by (auto simp: by_name_snoc map_of_dict_set)
  next
    case False
    then show ?thesis using snoc.IH by (auto simp: by_name_snoc map_of_dict_set)
  qed
qed

lemma find_Some_P: "find P xs = Some x \<Longrightarrow> P x"
  by (auto simp: find_Some_iff)

lemma find_dict_set:
  "find (\<lambda>(n, x). Q n) (dict_set k v d) =
     (case find (\<lambda>(n, x). Q n) d of
        Some (n, x) \<Rightarrow> Some (n, if n = k then v else x)
      | None \<Rightarrow> if Q k then Some (k, v) else None)"
proof (induction d)
  case Nil
  show ?case by simp
next
  case (Cons p d)
  obtain k' v' where p: "p = (k', v')" by (cases p)
  show ?case using Cons.IH by (auto simp: p split: option.splits dest: find_Some_P)
qed

lemma find_snoc:
  "find P (xs @ [y]) = (case find P xs of Some a \<Rightarrow> Some a | None \<Rightarrow> if P y then Some y else None)"
  by (induction xs) auto

lemma find_by_name:
  "find (\<lambda>(n, x). Q n) (by_name fs) =
     (case find (\<lambda>f. name f \<noteq> [] \<and> Q (name f)) fs of
        None \<Rightarrow> None
      | Some g \<Rightarrow> Some (name g, last (filter (\<lambda>f. name f = name g) fs)))"
proof (induction fs rule: rev_induct)
  case Nil
  show ?case by (simp add: by_name_def)
next
  case (snoc f fs)
  show ?case
  proof (cases "find (\<lambda>f. name f \<noteq> [] \<and> Q (name f)) fs")
    case None
    then show ?thesis using snoc.IH
      by (auto simp: by_name_snoc find_dict_set find_snoc)
  next
    case (Some g)
    then have "name g \<noteq> []" by (auto dest: find_Some_P)
    with Some show ?thesis using snoc.IH
      by (auto simp: by_name_snoc find_dict_set find_snoc)
  qed
qed

lemma short_names_map_snoc:
  "short_names_map (fs @ [f]) =
     (if name_of (field f) \<noteq> [] then dict_append (name_of (field f)) f (short_names_map fs)
      else short_names_map fs)"
  by (simp add: short_names_map_def Let_def)

lemma bearing_snoc:
  "bearing b (fs @ [f]) = bearing b fs @ (if name_of (field f) = b then [f] else [])"
  by (simp add: bearing_def)

lemma map_of_dict_append:
  "map_of (dict_append k v d) =
     (map_of d)(k \<mapsto> (case map_of d k of Some vs \<Rightarrow> vs @ [v] | None \<Rightarrow> [v]))"
  by (induction d) auto

lemma keys_dict_append:
  "map fst (dict_append k v d) = (if k \<in> set (map fst d) then map fst d else map fst d @ [k])"
proof (induction d)
  case Nil
  show ?case by simp
next
  case (Cons p d)
  obtain k' vs where p: "p = (k', vs)" by (cases p)
  show ?case
  proof (cases "k' = k")
    case True
    then show ?thesis by (simp add: p)
  next
    case False
    then show ?thesis using Cons.IH by (simp add: p)
  qed
qed

lemma map_of_short_names_map:
  "map_of (short_names_map fs) b =
     (if b \<noteq> [] \<and> bearing b fs \<noteq> [] then Some (bearing b fs) else None)"
proof (induction fs rule: rev_induct)
  case Nil
  show ?case by (simp add: short_names_map_def bearing_def)
next
  case (snoc f fs)
  show ?case
  proof (cases "name_of (field f) = b")
    case True
    then show ?thesis using snoc.IH
      by (auto simp: short_names_map_snoc map_of_dict_append bearing_snoc)
  next
    case False
    then show ?thesis using snoc.IH
      by (auto simp: short_names_map_snoc map_of_dict_append bearing_snoc)
  qed
qed

lemma keys_short_names_map_set:
  "set (map fst (short_names_map fs)) = {b. b \<noteq> [] \<and> bearing b fs \<noteq> []}"
proof -
  have "b \<in> set (map fst (short_names_map fs)) \<longleftrightarrow> b \<noteq> [] \<and> bearing b fs \<noteq> []" for b
  proof -
    have "b \<in> set (map fst (short_names_map fs)) \<longleftrightarrow> map_of (short_names_map fs) b \<noteq> None"
      by (simp add: map_of_eq_None_iff)
    then show ?thesis by (simp add: map_of_short_names_map)
  qed
  then show ?thesis by blast
qed

lemma keys_short_names_map_snoc:
  "map fst (short_names_map (fs @ [f])) =
     (if name_of (field f) \<noteq> [] \<and> name_of (field f) \<notin> set (map fst (short_names_map fs))
      then map fst (short_names_map fs) @ [name_of (field f)]
      else map fst (short_names_map fs))"
  by (simp add: short_names_map_snoc keys_dict_append)

lemma distinct_keys_short_names_map: "distinct (map fst (short_names_map fs))"
proof (induction fs rule: rev_induct)
  case Nil
  show ?case by (simp add: short_names_map_def)
next
  case (snoc f fs)
  then show ?case by (simp add: keys_short_names_map_snoc)
qed

lemma find_keys_short_names_map:
  "find R (map fst (short_names_map fs)) =
     map_option (\<lambda>g. name_of (field g))
       (find (\<lambda>g. name_of (field g) \<noteq> [] \<and> R (name_of (field g))) fs)"
proof (induction fs rule: rev_induct)
  case Nil
  show ?case by (simp add: short_names_map_def)
next
  case (snoc f fs)
  show ?case
  proof (cases "find R (map fst (short_names_map fs))")
    case (Some b)
    then show ?thesis using snoc.IH
      by (auto simp: keys_short_names_map_snoc find_snoc)
  next
    case None
    then have no: "\<not> R b" if "b \<in> set (map fst (short_names_map fs))" for b
      using that by (auto simp: find_None_iff)
    from None have IH: "find (\<lambda>g. name_of (field g) \<noteq> [] \<and> R (name_of (field g))) fs = None"
      using snoc.IH by simp
    show ?thesis
    proof (cases "name_of (field f) \<noteq> [] \<and> name_of (field f) \<notin> set (map fst (short_names_map fs))")
      case True
      then show ?thesis using None IH
        by (simp add: keys_short_names_map_snoc find_snoc)
    next
      case False
      then have "name_of (field f) = [] \<or> \<not> R (name_of (field f))" using no by blast
      then show ?thesis using None IH False
        by (auto simp: keys_short_names_map_snoc find_snoc)
    qed
  qed
qed

lemma find_alist:
  "distinct (map fst d) \<Longrightarrow>
   find (\<lambda>(b, l). P b l) d =
     map_option (\<lambda>b. (b, the (map_of d b))) (find (\<lambda>b. P b (the (map_of d b))) (map fst d))"
proof (induction d)
  case Nil
  show ?case by simp
next
  case (Cons p d)
  obtain k v where p: "p = (k, v)" by (cases p)
  from Cons.prems have k: "k \<notin> set (map fst d)" and d: "distinct (map fst d)" by (simp_all add: p)
  have eq: "find (\<lambda>b. P b (the (map_of ((k, v) # d) b))) (map fst d) =
            find (\<lambda>b. P b (the (map_of d b))) (map fst d)"
    using k by (intro find_cong refl) auto
  show ?case
  proof (cases "P k v")
    case True
    then show ?thesis by (simp add: p)
  next
    case False
    have nk: "find (\<lambda>b. P b (the (map_of d b))) (map fst d) = Some b \<Longrightarrow> b \<noteq> k" for b
      using k by (auto simp: find_Some_iff)
    show ?thesis
    proof (cases "find (\<lambda>b. P b (the (map_of d b))) (map fst d)")
      case None
      then show ?thesis using False Cons.IH [OF d] eq by (simp add: p)
    next
      case (Some b)
      then have "b \<noteq> k" by (rule nk)
      then show ?thesis using Some False Cons.IH [OF d] eq by (simp add: p)
    qed
  qed
qed

lemma the_map_of_short_names_map:
  "b \<in> set (map fst (short_names_map fs)) \<Longrightarrow> the (map_of (short_names_map fs) b) = bearing b fs"
  unfolding keys_short_names_map_set by (simp add: map_of_short_names_map)

lemma bearing_single:
  assumes "g \<in> set fs" and "length (bearing (name_of (field g)) fs) = 1"
  shows "hd (bearing (name_of (field g)) fs) = g"
proof -
  from assms(1) have "g \<in> set (bearing (name_of (field g)) fs)" by (simp add: bearing_def)
  moreover obtain x where "bearing (name_of (field g)) fs = [x]"
    using assms(2) by (cases "bearing (name_of (field g)) fs") auto
  ultimately show ?thesis by simp
qed

lemma find_in_set: "find P xs = Some x \<Longrightarrow> x \<in> set xs"
  by (auto simp: find_Some_iff)

lemma short_step:
  "(case find (\<lambda>(base, flist). lower base = lc \<and> length flist = 1) (short_names_map fs) of
      Some (base, flist) \<Rightarrow> Some (hd flist)
    | None \<Rightarrow> None) =
   find (\<lambda>f. name_of (field f) \<noteq> [] \<and> lower (name_of (field f)) = lc \<and>
              length (bearing (name_of (field f)) fs) = 1) fs"
proof -
  let ?d = "short_names_map fs"
  let ?R = "\<lambda>b. lower b = lc \<and> length (bearing b fs) = 1"
  have 1: "find (\<lambda>(base, flist). lower base = lc \<and> length flist = 1) ?d =
           map_option (\<lambda>b. (b, the (map_of ?d b)))
             (find (\<lambda>b. lower b = lc \<and> length (the (map_of ?d b)) = 1) (map fst ?d))"
    by (rule find_alist [OF distinct_keys_short_names_map])
  have 2: "find (\<lambda>b. lower b = lc \<and> length (the (map_of ?d b)) = 1) (map fst ?d) =
           find ?R (map fst ?d)"
    by (intro find_cong refl) (simp add: the_map_of_short_names_map)
  have 3: "find ?R (map fst ?d) =
           map_option (\<lambda>g. name_of (field g))
             (find (\<lambda>g. name_of (field g) \<noteq> [] \<and> ?R (name_of (field g))) fs)"
    by (rule find_keys_short_names_map)
  show ?thesis
  proof (cases "find (\<lambda>g. name_of (field g) \<noteq> [] \<and> ?R (name_of (field g))) fs")
    case None
    then show ?thesis using 1 2 3 by simp
  next
    case (Some g)
    then have g: "g \<in> set fs" and ne: "name_of (field g) \<noteq> []"
      and len: "length (bearing (name_of (field g)) fs) = 1"
      using find_in_set [OF Some] find_Some_P [OF Some] by simp_all
    have key: "name_of (field g) \<in> set (map fst ?d)"
      unfolding keys_short_names_map_set using ne len by auto
    have "the (map_of ?d (name_of (field g))) = bearing (name_of (field g)) fs"
      by (rule the_map_of_short_names_map [OF key])
    then show ?thesis using Some 1 2 3 bearing_single [OF g len] by simp
  qed
qed

lemma case_single: "(case l of [] \<Rightarrow> B | [c] \<Rightarrow> A c | c # d # r \<Rightarrow> B) = (if length l = 1 then A (hd l) else B)"
  by (cases l; cases "tl l") auto

text \<open>
  C1, as the code has it. Over the entries with a non-empty name, a key resolves (1) to the
  entry with that full name, the last one if several have it; else (2) to the entry with that
  local name, if exactly one entry bears it; else (3) to the entry whose full name equals the
  key up to case, taking the first such full name in table order; else (4) to the first entry
  whose local name equals the key up to case and whose local name, in its own spelling, is
  borne by no other entry; else (5) to nothing, and the key is skipped. The function is total,
  so no key raises. Step 4 does not ask that a single entry match up to case: entries whose
  local names differ from each other only in case do not make each other ambiguous.
\<close>

theorem resolve_key_precedence:
  "resolve_key flds key = resolve_precedence flds key"
proof (cases "key \<noteq> [] \<and> filter (\<lambda>f. name f = key) flds \<noteq> []")
  case True
  then show ?thesis
    by (simp add: resolve_key_def resolve_precedence_def map_of_by_name)
next
  case no_full: False
  then have m: "map_of (by_name flds) key = None" by (simp add: map_of_by_name)
  show ?thesis
  proof (cases "key \<noteq> [] \<and> length (bearing key flds) = 1")
    case True
    then have "map_of (short_names_map flds) key = Some (bearing key flds)"
      by (auto simp: map_of_short_names_map)
    then show ?thesis using True no_full m
      by (auto simp: resolve_key_def resolve_precedence_def case_single)
  next
    case no_short: False
    have c: "length (case map_of (short_names_map flds) key of Some l \<Rightarrow> l | None \<Rightarrow> []) \<noteq> 1"
      using no_short by (auto simp: map_of_short_names_map)
    have f: "find (\<lambda>(n, f). lower n = lower key) (by_name flds) =
             (case find (\<lambda>f. name f \<noteq> [] \<and> lower (name f) = lower key) flds of
                None \<Rightarrow> None
              | Some g \<Rightarrow> Some (name g, last (filter (\<lambda>f. name f = name g) flds)))"
      by (rule find_by_name)
    show ?thesis
    proof (cases "find (\<lambda>f. name f \<noteq> [] \<and> lower (name f) = lower key) flds")
      case (Some g)
      then show ?thesis using no_full no_short m c f
        by (auto simp: resolve_key_def resolve_precedence_def case_single Let_def)
    next
      case None
      then show ?thesis using no_full no_short m c f short_step [of "lower key" flds]
        by (auto simp: resolve_key_def resolve_precedence_def case_single Let_def)
    qed
  qed
qed

lemma flatten_two_parents:
  "flatten_all_fields sample_two_parents =
     [\<lparr>name = ''A.B'', field = Obj (Some ''B'') (Some ''/Tx'') None None None None None [],
        widgets = []\<rparr>,
      \<lparr>name = ''C.B'', field = Obj (Some ''B'') (Some ''/Tx'') None None None None None [],
        widgets = []\<rparr>]"
  by (simp add: flatten_all_fields_def sample_two_parents_def join_name_def to_str_def
      is_widget_def Let_def)

lemma flatten_one_parent:
  "flatten_all_fields [hd sample_two_parents] =
     [\<lparr>name = ''A.B'', field = Obj (Some ''B'') (Some ''/Tx'') None None None None None [],
        widgets = []\<rparr>]"
  by (simp add: flatten_all_fields_def sample_two_parents_def join_name_def to_str_def
      is_widget_def Let_def)

lemma flatten_two_cases:
  "flatten_all_fields sample_two_cases =
     [\<lparr>name = ''X.ab'', field = Obj (Some ''ab'') (Some ''/Tx'') None None None None None [],
        widgets = []\<rparr>,
      \<lparr>name = ''Y.AB'', field = Obj (Some ''AB'') (Some ''/Tx'') None None None None None [],
        widgets = []\<rparr>]"
  by (simp add: flatten_all_fields_def sample_two_cases_def join_name_def to_str_def
      is_widget_def Let_def)

lemma lower_samples:
  "lower ''B'' = ''b''" "lower ''A.B'' = ''a.b''" "lower ''C.B'' = ''c.b''"
  "lower ''Ab'' = ''ab''" "lower ''ab'' = ''ab''" "lower ''AB'' = ''ab''"
  "lower ''X.ab'' = ''x.ab''" "lower ''Y.AB'' = ''y.ab''"
  "lower ''b'' = ''b''" "lower ''a.b'' = ''a.b''"
  by (simp_all add: lower_def lower_char_def)

theorem resolve_key_precedence_witness:
  "resolve_key (flatten_all_fields sample_two_parents) ''B'' = None \<and>
   resolve_key (flatten_all_fields [hd sample_two_parents]) ''B'' =
     Some \<lparr>name = ''A.B'', field = Obj (Some ''B'') (Some ''/Tx'') None None None None None [],
            widgets = []\<rparr> \<and>
   resolve_key (flatten_all_fields sample_two_parents) ''C.B'' =
     Some \<lparr>name = ''C.B'', field = Obj (Some ''B'') (Some ''/Tx'') None None None None None [],
            widgets = []\<rparr> \<and>
   resolve_key (flatten_all_fields sample_two_parents) ''a.b'' =
     Some \<lparr>name = ''A.B'', field = Obj (Some ''B'') (Some ''/Tx'') None None None None None [],
            widgets = []\<rparr> \<and>
   resolve_key (flatten_all_fields [hd sample_two_parents]) ''b'' =
     Some \<lparr>name = ''A.B'', field = Obj (Some ''B'') (Some ''/Tx'') None None None None None [],
            widgets = []\<rparr>"
  using resolve_key_precedence [of "flatten_all_fields sample_two_parents" "''B''"]
    resolve_key_precedence [of "flatten_all_fields [hd sample_two_parents]" "''B''"]
    resolve_key_precedence [of "flatten_all_fields sample_two_parents" "''C.B''"]
    resolve_key_precedence [of "flatten_all_fields sample_two_parents" "''a.b''"]
    resolve_key_precedence [of "flatten_all_fields [hd sample_two_parents]" "''b''"]
  by (simp add: flatten_two_parents flatten_one_parent resolve_precedence_def bearing_def
      name_of_def to_str_def lower_samples)

text \<open>
  C1 as stated fails at step 4: with the fields \<open>X.ab\<close> and \<open>Y.AB\<close>, two entries match
  the key \<open>Ab\<close> on the local name up to case, and the key resolves to \<open>X.ab\<close>.
\<close>

theorem resolve_key_case_ambiguity_counterexample:
  "map name (flatten_all_fields sample_two_cases) = [''X.ab'', ''Y.AB''] \<and>
   lower ''ab'' = lower ''Ab'' \<and> lower ''AB'' = lower ''Ab'' \<and>
   resolve_key (flatten_all_fields sample_two_cases) ''Ab'' =
     Some \<lparr>name = ''X.ab'', field = Obj (Some ''ab'') (Some ''/Tx'') None None None None None [],
            widgets = []\<rparr>"
  by (simp add: flatten_two_cases resolve_key_def by_name_def short_names_map_def
      name_of_def to_str_def lower_samples Let_def)

section \<open>Properties of the template analyzer\<close>

lemma map_filter_snoc:
  "List.map_filter f (xs @ [x]) = List.map_filter f xs @ (case f x of None \<Rightarrow> [] | Some y \<Rightarrow> [y])"
  by (simp add: List.map_filter_def split: option.splits)

lemma map_of_bind_steps:
  "map_of (foldl bind_step out els) n =
     (if filter (\<lambda>(k, r). k = n) (List.map_filter binding_of els) = [] then map_of out n
      else Some (snd (last (filter (\<lambda>(k, r). k = n) (List.map_filter binding_of els)))))"
proof (induction els rule: rev_induct)
  case Nil
  show ?case by (simp add: List.map_filter_def)
next
  case (snoc e els)
  show ?case
  proof (cases "binding_of e")
    case None
    then show ?thesis using snoc.IH by (simp add: bind_step_def map_filter_snoc)
  next
    case (Some kr)
    obtain k r where kr: "kr = (k, r)" by (cases kr)
    show ?thesis
    proof (cases "k = n")
      case True
      then show ?thesis using Some kr
        by (simp add: bind_step_def map_filter_snoc map_of_dict_set)
    next
      case False
      then show ?thesis using Some kr snoc.IH
        by (simp add: bind_step_def map_filter_snoc map_of_dict_set)
    qed
  qed
qed

text \<open>
  C2, as the code has it: the bindings map gives a name the reference of its last
  occurrence among the elements that declare a binding, the \<open>field\<close> elements in document
  order followed by the \<open>exclGroup\<close> elements in document order; an occurrence counts when
  it has a non-empty name and its first \<open>bind\<close> descendant has a non-empty \<open>ref\<close>. A
  template that does not parse gives the empty map.
\<close>

theorem bindings_last_wins:
  "get_bindings_from_template None = [] \<and>
   map_of (get_bindings_from_template (Some rt)) n =
     (if filter (\<lambda>(k, r). k = n) (declared_bindings rt) = [] then None
      else Some (snd (last (filter (\<lambda>(k, r). k = n) (declared_bindings rt)))))"
proof
  show "get_bindings_from_template None = []"
    by (simp add: get_bindings_from_template_def)
next
  have "get_bindings_from_template (Some rt) =
        foldl bind_step [] (findall_local ''field'' rt @ findall_local ''exclGroup'' rt)"
    by (simp add: get_bindings_from_template_def)
  then show "map_of (get_bindings_from_template (Some rt)) n =
     (if filter (\<lambda>(k, r). k = n) (declared_bindings rt) = [] then None
      else Some (snd (last (filter (\<lambda>(k, r). k = n) (declared_bindings rt)))))"
    by (simp only: map_of_bind_steps declared_bindings_def) simp
qed

lemma sample_declared:
  "declared_bindings sample_template = [(''F'', ''$.a''), (''F'', ''$.b'')]"
  by (simp add: declared_bindings_def sample_template_def findall_local_def find_local_def
      binding_of_def get_attr_def List.map_filter_def)

theorem bindings_last_wins_witness:
  "map_of (get_bindings_from_template (Some sample_template)) ''F'' = Some ''$.b''"
  using bindings_last_wins [of sample_template "''F''"]
  by (simp add: sample_declared)

text \<open>
  C2 as stated fails: with two fields named \<open>F\<close> bound to \<open>$.a\<close> and then \<open>$.b\<close>, the
  map records \<open>$.b\<close>, the reference of the second occurrence.
\<close>

theorem bindings_first_wins_counterexample:
  "declared_bindings sample_template = [(''F'', ''$.a''), (''F'', ''$.b'')] \<and>
   get_bindings_from_template (Some sample_template) = [(''F'', ''$.b'')]"
  by (simp add: declared_bindings_def get_bindings_from_template_def sample_template_def
      findall_local_def find_local_def bind_step_def binding_of_def get_attr_def
      List.map_filter_def)

section \<open>Properties of the datasets path resolver\<close>































lemma parts_index_only: "path_parts ''[0]'' = [''[0]'']" "path_parts ''*'' = [''*'']"
  by (simp_all add: path_parts_def strip_def is_space_def)

lemma wildcard_overwrites_first_child:
  "set_value_by_ref no_pattern valid_tag str_of_string str_of_string
     (Elem [] ''data'' [] None [Elem [] ''x'' [] None [], Elem [] ''y'' [] None []]) ''*''
     (JStr ''v'') =
     Inr (Elem [] ''data'' [] None [Elem [] ''x'' [] (Some ''v'') [], Elem [] ''y'' [] None []])"
  by (simp add: set_value_by_ref_def parts_index_only lookup_child_def path_literal_def
      path_special_def find_wild_def get_attr_def List.extract_def text_of_def str_of_string_def)


section \<open>Properties of the error outcomes\<close>

lemma messages_distinct:
  "msg_no_acroform \<noteq> msg_no_xfa" "msg_no_root \<noteq> msg_no_acroform" "msg_no_root \<noteq> msg_no_xfa"
  "msg_no_packets \<noteq> msg_no_acroform" "msg_no_packets \<noteq> msg_no_xfa" "msg_no_packets \<noteq> msg_no_root"
  by (simp_all add: msg_no_acroform_def msg_no_xfa_def msg_no_root_def msg_no_packets_def)

text \<open>
  C9: reading the XFA packets fails with its own error for a missing file, a file that cannot
  be opened, a document without catalog, a document without \<open>/AcroForm\<close> and a document
  with \<open>/AcroForm\<close> but without \<open>/XFA\<close>; these errors differ from each other. Form-type
  detection answers a missing file, an unreadable file, a document without catalog, a document
  without form, an AcroForm-only document and an XFA document with six different results.
\<close>

theorem structural_absence_distinct:
  "read_xfa_packets p NoFile = Inl (FileNotFoundError (''Nie znaleziono pliku: '' @ p)) \<and>
   read_xfa_packets p Unreadable = Inl PdfError \<and>
   read_xfa_packets p (Pdf None) = Inl (ValueError msg_no_root) \<and>
   (AcroForm c = None \<longrightarrow> read_xfa_packets p (Pdf (Some c)) = Inl (ValueError msg_no_acroform)) \<and>
   (AcroForm c = Some a \<and> XFA a = None \<longrightarrow>
      read_xfa_packets p (Pdf (Some c)) = Inl (ValueError msg_no_xfa)) \<and>
   distinct [FileNotFoundError (''Nie znaleziono pliku: '' @ p), PdfError, ValueError msg_no_root,
             ValueError msg_no_acroform, ValueError msg_no_xfa, ValueError msg_no_packets] \<and>
   detect_form_type NoFile = ''BrakPliku'' \<and>
   detect_form_type Unreadable = ''BladOdczytu'' \<and>
   detect_form_type (Pdf None) = ''NiepoprawnyPDF'' \<and>
   (AcroForm c = None \<longrightarrow> detect_form_type (Pdf (Some c)) = ''BrakFormularza'') \<and>
   (AcroForm c = Some a \<and> XFA a = None \<longrightarrow> detect_form_type (Pdf (Some c)) = ''AcroForm'') \<and>
   (AcroForm c = Some a \<and> XFA a = Some x \<longrightarrow> detect_form_type (Pdf (Some c)) = ''XFA'') \<and>
   distinct [''BrakPliku'', ''BladOdczytu'', ''NiepoprawnyPDF'', ''BrakFormularza'', ''AcroForm'', ''XFA'']"
proof (intro conjI impI)
  show "distinct [FileNotFoundError (''Nie znaleziono pliku: '' @ p), PdfError, ValueError msg_no_root,
             ValueError msg_no_acroform, ValueError msg_no_xfa, ValueError msg_no_packets]"
    using messages_distinct by auto
next
  show "distinct [''BrakPliku'', ''BladOdczytu'', ''NiepoprawnyPDF'', ''BrakFormularza'', ''AcroForm'', ''XFA'']"
    by simp
qed (auto simp: read_xfa_packets_def detect_form_type_def)

theorem structural_absence_distinct_witness:
  "read_xfa_packets ''xfa.pdf'' NoFile = Inl (FileNotFoundError ''Nie znaleziono pliku: xfa.pdf'') \<and>
   read_xfa_packets ''xfa.pdf'' (Pdf (Some \<lparr>AcroForm = None\<rparr>)) = Inl (ValueError msg_no_acroform) \<and>
   read_xfa_packets ''xfa.pdf'' (Pdf (Some \<lparr>AcroForm = Some \<lparr>XFA = None\<rparr>\<rparr>)) =
     Inl (ValueError msg_no_xfa) \<and>
   msg_no_acroform \<noteq> msg_no_xfa \<and>
   detect_form_type (Pdf (Some \<lparr>AcroForm = None\<rparr>)) = ''BrakFormularza'' \<and>
   detect_form_type (Pdf (Some \<lparr>AcroForm = Some \<lparr>XFA = None\<rparr>\<rparr>)) = ''AcroForm'' \<and>
   detect_form_type (Pdf (Some \<lparr>AcroForm = Some \<lparr>XFA = Some (XfaStream ''<xdp/>'')\<rparr>\<rparr>)) = ''XFA''"
  using structural_absence_distinct [of "''xfa.pdf''" "\<lparr>AcroForm = None\<rparr>" "\<lparr>XFA = None\<rparr>" "XfaStream []"]
    structural_absence_distinct [of "''xfa.pdf''" "\<lparr>AcroForm = Some \<lparr>XFA = None\<rparr>\<rparr>" "\<lparr>XFA = None\<rparr>"
      "XfaStream []"]
    structural_absence_distinct [of "''xfa.pdf''" "\<lparr>AcroForm = Some \<lparr>XFA = Some (XfaStream ''<xdp/>'')\<rparr>\<rparr>"
      "\<lparr>XFA = Some (XfaStream ''<xdp/>'')\<rparr>" "XfaStream ''<xdp/>''"]
  by simp

end
